theory Spec2Isabelle
  imports Complex_Main "HOL-Library.Word" "HOL-Library.Sublist"
begin

section \<open>The streaming session driver of \<^verbatim>\<open>service/streaming_recognizer.py\<close>\<close>

text \<open>
  The module has two parts: \<^verbatim>\<open>RequestIterator\<close>, which cuts an audio buffer
  into requests (one configuration request, then audio frames), and
  \<^verbatim>\<open>StreamingRecognizer.recognize_audio_content\<close>, which folds the
  service's responses into one result. Both are embedded below, function by
  function, with the mutable object fields passed as explicit state.
\<close>

subsection \<open>Data\<close>

type_synonym byte = "8 word"

text \<open>
  \<^verbatim>\<open>audio\<close> is a dictionary with the keys \<^verbatim>\<open>"samples"\<close> (a bytes
  object) and \<^verbatim>\<open>"frame_rate"\<close> (the sampling frequency in Hz, a count and
  therefore a natural number).
\<close>

record audio =
  samples :: "byte list"
  frame_rate :: nat

text \<open>
  The settings object is built outside this module; the module only calls its
  accessors \<^verbatim>\<open>time_offsets()\<close>, \<^verbatim>\<open>single_utterance()\<close>,
  \<^verbatim>\<open>interim_results()\<close>, \<^verbatim>\<open>session_id()\<close> and
  \<^verbatim>\<open>timeouts_map()\<close>. The session id is \<open>None\<close> when the accessor
  returns Python's \<^verbatim>\<open>None\<close>. The timeouts map is kept as the list of its
  items in iteration order, each value already rendered as
  \<^verbatim>\<open>"{}".format(value)\<close> renders it.
\<close>

record settings =
  time_offsets :: bool
  single_utterance :: bool
  interim_results :: bool
  session_id :: "string option"
  timeouts_map :: "(string \<times> string) list"

text \<open>
  The outbound protocol messages are only ever constructed here, never read, so
  they are datatypes whose constructor arguments follow the keyword arguments
  of the source in order:
  \<^item> \<open>RecognitionConfig encoding sample_rate_hertz language_code
      enable_word_time_offsets max_alternatives config_fields\<close>;
  \<^item> \<open>StreamingRecognitionConfig config single_utterance interim_results\<close>;
  \<^item> a \<^verbatim>\<open>StreamingRecognizeRequest\<close> carries either
    \<^verbatim>\<open>streaming_config\<close> or \<^verbatim>\<open>audio_content\<close>.
\<close>

datatype RecognitionConfig =
  RecognitionConfig string nat string bool nat "(string \<times> string) list"

datatype StreamingRecognitionConfig =
  StreamingRecognitionConfig RecognitionConfig bool bool

datatype StreamingRecognizeRequest =
  Request_streaming_config StreamingRecognitionConfig
| Request_audio_content "byte list"

text \<open>\<^verbatim>\<open>StopIteration\<close> is the only exception the iterator raises.\<close>

datatype signal = StopIteration

subsection \<open>\<^verbatim>\<open>StreamingRecognizer.build_configuration_request\<close>\<close>

text \<open>
  The loop over \<^verbatim>\<open>timeouts\<close> appends one \<^verbatim>\<open>config_fields\<close> entry per
  key, with the key and the formatted value.
\<close>

definition build_configuration_request :: "nat \<Rightarrow> settings \<Rightarrow> StreamingRecognizeRequest" where
  "build_configuration_request sampling_rate stg =
     Request_streaming_config
       (StreamingRecognitionConfig
          (RecognitionConfig ''LINEAR16'' sampling_rate ''pl-PL'' (time_offsets stg) 1
             (map (\<lambda>(settings_key, v). (settings_key, v)) (timeouts_map stg)))
          (single_utterance stg)
          (interim_results stg))"

subsection \<open>\<^verbatim>\<open>RequestIterator\<close>\<close>

text \<open>
  The fields of the iterator object. The lock and the dispatch table
  \<^verbatim>\<open>request_builder\<close> hold no data of their own: the table is the
  conditional in \<open>RequestIterator_next\<close>, and with one caller the lock is
  always free.
\<close>

record RequestIterator =
  audio_content :: "byte list"
  settings :: settings
  audio_frame_rate :: nat
  frame_samples_size :: nat
  is_initial_request :: bool
  data_index :: nat

definition RequestIterator_init :: "audio \<Rightarrow> settings \<Rightarrow> RequestIterator" where
  "RequestIterator_init au stg =
     (let frame_len = 200; sample_width = 2 in
      \<lparr> audio_content = samples au,
        settings = stg,
        audio_frame_rate = frame_rate au,
        frame_samples_size = (frame_rate au div 1000) * frame_len * sample_width,
        is_initial_request = True,
        data_index = 0 \<rparr>)"

text \<open>
  Python's \<^verbatim>\<open>xs[i:j]\<close> for indices that are not negative: the elements at
  the positions \<open>i \<le> k < min j (length xs)\<close>, none when \<open>j \<le> i\<close>.
\<close>

definition slice :: "'a list \<Rightarrow> nat \<Rightarrow> nat \<Rightarrow> 'a list" where
  "slice xs i j = take (j - i) (drop i xs)"

definition initial_request :: "RequestIterator \<Rightarrow> (signal + StreamingRecognizeRequest) \<times> RequestIterator" where
  "initial_request self =
     (let req = build_configuration_request (audio_frame_rate self) (settings self) in
      (Inr req, self\<lparr>is_initial_request := False\<rparr>))"

text \<open>
  The cursor is advanced before the end test, and the exception leaves the
  advanced cursor in the object.
\<close>

definition normal_request :: "RequestIterator \<Rightarrow> (signal + StreamingRecognizeRequest) \<times> RequestIterator" where
  "normal_request self =
     (let data = slice (audio_content self) (data_index self)
                   (data_index self + frame_samples_size self);
          self' = self\<lparr>data_index := data_index self + frame_samples_size self\<rparr> in
      if data_index self' \<ge> length (audio_content self')
      then (Inl StopIteration, self')
      else (Inr (Request_audio_content data), self'))"

definition RequestIterator_next :: "RequestIterator \<Rightarrow> (signal + StreamingRecognizeRequest) \<times> RequestIterator" where
  "RequestIterator_next self =
     (if is_initial_request self then initial_request self else normal_request self)"

text \<open>
  The transport consumes the iterator the way a \<^verbatim>\<open>for\<close> loop does: it
  calls \<^verbatim>\<open>__next__\<close> until \<^verbatim>\<open>StopIteration\<close> and keeps the requests
  returned before it. The loop need not end, so the result is an option:
  \<open>None\<close> means that the iteration runs forever.
\<close>

partial_function (option) exhaust :: "RequestIterator \<Rightarrow> StreamingRecognizeRequest list option" where
  "exhaust self =
     (case RequestIterator_next self of
        (Inl _, _) \<Rightarrow> Some []
      | (Inr req, self') \<Rightarrow> Option.bind (exhaust self') (\<lambda>reqs. Some (req # reqs)))"

declare exhaust.simps [code]

text \<open>
  A caller may also pull a fixed number of times, whatever the iterator
  answers: the results of \<open>n\<close> successive calls and the object after them.
\<close>

fun pull_n :: "nat \<Rightarrow> RequestIterator \<Rightarrow> (signal + StreamingRecognizeRequest) list \<times> RequestIterator" where
  "pull_n 0 self = ([], self)"
| "pull_n (Suc n) self =
     (let (r, self') = RequestIterator_next self;
          (rs, self'') = pull_n n self'
      in (r # rs, self''))"

subsection \<open>Inbound messages\<close>

text \<open>
  The fields of a response that the module reads. A \<^verbatim>\<open>repeated\<close> field
  of a protocol message is a list (never \<^verbatim>\<open>None\<close>); confidences and
  times are modelled by the real numbers they denote, since the module only
  compares and copies them.
\<close>

record word_info =
  word :: string
  start_time :: real
  end_time :: real

record alternative =
  transcript :: string
  confidence :: real
  words :: "word_info list"

record result =
  alternatives :: "alternative list"
  is_final :: bool

record status =
  code :: int
  message :: string

record response =
  error :: status
  results :: "result list"

text \<open>
  What the two \<^verbatim>\<open>print\<close> calls write, by call site and format
  arguments.
\<close>

datatype printed_line =
  Received_error_response int string
| Temporal_results result

datatype py_error = IndexError

text \<open>
  The local variables of \<^verbatim>\<open>recognize_audio_content\<close> that the loop
  changes, and the lines printed so far.
\<close>

record locals =
  confirmed_results :: "string list"
  alignment :: "real list list"
  confidence :: real
  printed :: "printed_line list"

text \<open>The dictionary that \<^verbatim>\<open>recognize_audio_content\<close> returns, by its keys.\<close>

record session_result =
  transcript :: string
  alignment :: "real list list"
  confidence :: real

subsection \<open>\<^verbatim>\<open>StreamingRecognizer.recognize_audio_content\<close>\<close>

text \<open>\<^verbatim>\<open>sep.join(xs)\<close>\<close>

fun join :: "string \<Rightarrow> string list \<Rightarrow> string" where
  "join sep [] = []"
| "join sep [x] = x"
| "join sep (x # y # ys) = x @ sep @ join sep (y # ys)"

text \<open>
  The metadata of the call: the session id when the accessor returns a
  non-empty string.
\<close>

definition call_metadata :: "settings \<Rightarrow> (string \<times> string) list" where
  "call_metadata stg =
     (case session_id stg of
        None \<Rightarrow> []
      | Some sid \<Rightarrow> if sid \<noteq> [] then [(''session_id'', sid)] else [])"

text \<open>The inner loop over the words of the first alternative.\<close>

fun append_words :: "word_info list \<Rightarrow> locals \<Rightarrow> locals" where
  "append_words [] vars = vars"
| "append_words (w # ws) vars =
     append_words ws
       (if word w \<noteq> ''<eps>''
        then vars\<lparr> confirmed_results := confirmed_results vars @ [word w],
                   locals.alignment := locals.alignment vars @ [[start_time w, end_time w]] \<rparr>
        else vars)"

text \<open>
  One pass of the body of \<^verbatim>\<open>for recognition in recognitions\<close>.
  \<^verbatim>\<open>first.alternatives[0]\<close> raises \<^verbatim>\<open>IndexError\<close> on an empty list,
  in both modes before anything is appended.
\<close>

definition process_recognition :: "bool \<Rightarrow> locals \<Rightarrow> response \<Rightarrow> py_error + locals" where
  "process_recognition time_offsets' vars recognition =
     (if code (error recognition) \<noteq> 0
      then Inr (vars\<lparr> printed := printed vars @
                  [Received_error_response (code (error recognition)) (message (error recognition))] \<rparr>)
      else if length (results recognition) > 0
      then (let first = hd (results recognition) in
            if is_final first
            then (case alternatives first of
                    [] \<Rightarrow> Inl IndexError
                  | alt0 # _ \<Rightarrow>
                      (let vars' =
                             (if time_offsets'
                              then append_words (words alt0) vars
                              else vars\<lparr> confirmed_results :=
                                           confirmed_results vars @ [alternative.transcript alt0] \<rparr>)
                       in Inr (vars'\<lparr> locals.confidence :=
                                         min (locals.confidence vars') (alternative.confidence alt0) \<rparr>)))
            else Inr (vars\<lparr> printed := printed vars @ [Temporal_results first] \<rparr>))
      else Inr vars)"

fun recognitions_loop :: "bool \<Rightarrow> locals \<Rightarrow> response list \<Rightarrow> py_error + locals" where
  "recognitions_loop time_offsets' vars [] = Inr vars"
| "recognitions_loop time_offsets' vars (recognition # recognitions) =
     (case process_recognition time_offsets' vars recognition of
        Inl e \<Rightarrow> Inl e
      | Inr vars' \<Rightarrow> recognitions_loop time_offsets' vars' recognitions)"

text \<open>The assignments before the loop.\<close>

definition initial_locals :: locals where
  "initial_locals =
     \<lparr> confirmed_results = [], locals.alignment = [], locals.confidence = 1.0, printed = [] \<rparr>"

text \<open>The statements after the loop.\<close>

definition build_final_results :: "bool \<Rightarrow> locals \<Rightarrow> session_result list" where
  "build_final_results time_offsets' vars =
     (let final_alignment =
            (if time_offsets' \<and> locals.alignment vars \<noteq> [] then locals.alignment vars else [[]]);
          final_transc = join '' '' (confirmed_results vars)
      in [\<lparr> transcript = final_transc,
            alignment = final_alignment,
            confidence = locals.confidence vars \<rparr>])"

text \<open>
  The whole method, given the responses that the service call yields for the
  session.
\<close>

definition recognize_audio_content :: "settings \<Rightarrow> response list \<Rightarrow> py_error + session_result list" where
  "recognize_audio_content stg recognitions =
     (let time_offsets' = time_offsets stg in
      case recognitions_loop time_offsets' initial_locals recognitions of
        Inl e \<Rightarrow> Inl e
      | Inr vars \<Rightarrow> Inr (build_final_results time_offsets' vars))"

subsection \<open>Observations used to state the properties\<close>

text \<open>The payloads of the audio requests among the results of a run of pulls, in order.\<close>

fun audio_payloads :: "(signal + StreamingRecognizeRequest) list \<Rightarrow> byte list list" where
  "audio_payloads [] = []"
| "audio_payloads (Inr (Request_audio_content data) # rs) = data # audio_payloads rs"
| "audio_payloads (_ # rs) = audio_payloads rs"

fun is_configuration :: "signal + StreamingRecognizeRequest \<Rightarrow> bool" where
  "is_configuration (Inr (Request_streaming_config _)) = True"
| "is_configuration _ = False"

text \<open>A settings object for the concrete sessions below.\<close>

definition example_settings :: settings where
  "example_settings =
     \<lparr> time_offsets = False, single_utterance = False, interim_results = True,
       session_id = Some ''s1'', timeouts_map = [(''no-input-timeout'', ''5000'')] \<rparr>"

text \<open>
  The three variables that the loop of \<^verbatim>\<open>recognize_audio_content\<close>
  accumulates, without the printed lines; and the same view of the result of a
  loop pass, which may be an exception.
\<close>

definition accumulated :: "locals \<Rightarrow> string list \<times> real list list \<times> real" where
  "accumulated vars = (confirmed_results vars, locals.alignment vars, locals.confidence vars)"

definition outcome :: "py_error + locals \<Rightarrow> py_error + string list \<times> real list list \<times> real" where
  "outcome res = (case res of Inl e \<Rightarrow> Inl e | Inr vars \<Rightarrow> Inr (accumulated vars))"

text \<open>
  A response cut down to its first result, and that to its first alternative.
\<close>

definition first_only :: "response \<Rightarrow> response" where
  "first_only recognition =
     recognition\<lparr> results :=
       map (\<lambda>x. x\<lparr> alternatives := take 1 (alternatives x) \<rparr>) (take 1 (results recognition)) \<rparr>"

text \<open>Builders for the responses of the concrete sessions below.\<close>

definition final_result :: "string \<Rightarrow> real \<Rightarrow> word_info list \<Rightarrow> result" where
  "final_result txt conf ws =
     \<lparr> alternatives = [\<lparr> alternative.transcript = txt, alternative.confidence = conf, words = ws \<rparr>],
       is_final = True \<rparr>"

definition interim_result :: "string \<Rightarrow> result" where
  "interim_result txt =
     \<lparr> alternatives = [\<lparr> alternative.transcript = txt, alternative.confidence = 0.5, words = [] \<rparr>],
       is_final = False \<rparr>"

definition ok_response :: "result list \<Rightarrow> response" where
  "ok_response rs = \<lparr> error = \<lparr> code = 0, message = [] \<rparr>, results = rs \<rparr>"

definition error_response :: "int \<Rightarrow> string \<Rightarrow> result list \<Rightarrow> response" where
  "error_response c m rs = \<lparr> error = \<lparr> code = c, message = m \<rparr>, results = rs \<rparr>"

section \<open>The request iterator\<close>

subsection \<open>One pull\<close>

lemma init_simps:
  "audio_content (RequestIterator_init au stg) = samples au"
  "settings (RequestIterator_init au stg) = stg"
  "audio_frame_rate (RequestIterator_init au stg) = frame_rate au"
  "frame_samples_size (RequestIterator_init au stg) = frame_rate au div 1000 * 400"
  "is_initial_request (RequestIterator_init au stg)"
  "data_index (RequestIterator_init au stg) = 0"
  by (simp_all add: RequestIterator_init_def)

lemma frame_size_zero_iff:
  "frame_samples_size (RequestIterator_init au stg) = 0 \<longleftrightarrow> frame_rate au < 1000"
  by (simp add: init_simps div_eq_0_iff)

lemma next_initial:
  "is_initial_request p \<Longrightarrow>
   RequestIterator_next p =
     (Inr (build_configuration_request (audio_frame_rate p) (settings p)),
      p\<lparr>is_initial_request := False\<rparr>)"
  by (simp add: RequestIterator_next_def initial_request_def)

lemma next_streaming:
  "\<not> is_initial_request p \<Longrightarrow>
   RequestIterator_next p =
     (if length (audio_content p) \<le> data_index p + frame_samples_size p
      then Inl StopIteration
      else Inr (Request_audio_content
                  (slice (audio_content p) (data_index p) (data_index p + frame_samples_size p))),
      p\<lparr>data_index := data_index p + frame_samples_size p\<rparr>)"
  by (simp add: RequestIterator_next_def normal_request_def Let_def)

lemma data_index_next: "data_index p \<le> data_index (snd (RequestIterator_next p))"
  by (cases "is_initial_request p") (simp_all add: next_initial next_streaming)

subsection \<open>Iterating to exhaustion\<close>

lemma exhaust_initial:
  "is_initial_request p \<Longrightarrow>
   exhaust p =
     Option.bind (exhaust (p\<lparr>is_initial_request := False\<rparr>))
       (\<lambda>reqs. Some (build_configuration_request (audio_frame_rate p) (settings p) # reqs))"
  by (subst exhaust.simps) (simp add: next_initial)

lemma exhaust_ended:
  "\<not> is_initial_request p \<Longrightarrow>
   length (audio_content p) \<le> data_index p + frame_samples_size p \<Longrightarrow>
   exhaust p = Some []"
  by (subst exhaust.simps) (simp add: next_streaming)

text \<open>
  With a positive frame size the loop ends, and the frames it returns are the
  slices that start below the last one: the slice that reaches the end of the
  buffer is cut but not returned.
\<close>

lemma exhaust_streaming:
  "\<not> is_initial_request p \<Longrightarrow> 0 < frame_samples_size p \<Longrightarrow>
   m = (length (audio_content p) - data_index p - 1) div frame_samples_size p \<Longrightarrow>
   exhaust p =
     Some (map (\<lambda>k. Request_audio_content
                  (slice (audio_content p) (data_index p + k * frame_samples_size p)
                     (data_index p + (k + 1) * frame_samples_size p)))
             [0..<m])"
proof (induction m arbitrary: p)
  case 0
  then have "length (audio_content p) \<le> data_index p + frame_samples_size p"
    by (simp add: div_eq_0_iff)
  with 0 show ?case
    by (subst exhaust.simps) (simp add: next_streaming)
next
  case (Suc m)
  let ?F = "frame_samples_size p"
  let ?p' = "p\<lparr>data_index := data_index p + ?F\<rparr>"
  from Suc.prems have big: "?F \<le> length (audio_content p) - data_index p - 1"
    by (metis div_greater_zero_iff zero_less_Suc)
  then have notstop: "\<not> length (audio_content p) \<le> data_index p + ?F"
    using Suc.prems(2) by linarith
  have m': "m = (length (audio_content ?p') - data_index ?p' - 1) div frame_samples_size ?p'"
  proof -
    have "(length (audio_content p) - data_index p - 1) div ?F
          = Suc ((length (audio_content p) - data_index p - 1 - ?F) div ?F)"
      using big Suc.prems(2) by (simp add: le_div_geq)
    with Suc.prems(3) have "m = (length (audio_content p) - data_index p - 1 - ?F) div ?F"
      by simp
    then show ?thesis by (simp add: algebra_simps)
  qed
  have ih: "exhaust ?p' =
     Some (map (\<lambda>k. Request_audio_content
                  (slice (audio_content ?p') (data_index ?p' + k * frame_samples_size ?p')
                     (data_index ?p' + (k + 1) * frame_samples_size ?p')))
             [0..<m])"
    using Suc.prems(1,2) by (intro Suc.IH [OF _ _ m']) simp_all
  have upt: "[0..<Suc m] = 0 # map Suc [0..<m]"
    by (simp add: upt_conv_Cons map_Suc_upt del: upt_Suc)
  show ?case
    apply (subst exhaust.simps)
    apply (simp only: next_streaming [OF Suc.prems(1)] notstop if_False prod.case sum.case ih upt)
    apply (simp add: comp_def algebra_simps)
    done
qed

text \<open>
  With frame size 0 and bytes left, a pull returns an empty frame and leaves
  the object as it was, so the loop has no result.
\<close>

lemma exhaust_stuck:
  assumes "\<not> is_initial_request p" "frame_samples_size p = 0"
    "data_index p < length (audio_content p)"
  shows "exhaust p = None"
proof (rule ccontr)
  assume "exhaust p \<noteq> None"
  then obtain reqs where some: "exhaust p = Some reqs" by auto
  have step: "RequestIterator_next p = (Inr (Request_audio_content []), p)"
    using assms by (simp add: next_streaming slice_def)
  have "q \<noteq> p" if "exhaust q = Some ys" for q ys
    by (rule exhaust.raw_induct [where P = "\<lambda>q _. q \<noteq> p", OF _ that])
       (auto simp: step bind_eq_Some_conv, blast)
  from this [OF some] show False by simp
qed

lemma exhaust_init:
  assumes "1000 \<le> frame_rate au"
  shows "exhaust (RequestIterator_init au stg) =
     Some (build_configuration_request (frame_rate au) stg #
           map (\<lambda>k. Request_audio_content
                  (slice (samples au) (k * (frame_rate au div 1000 * 400))
                     ((k + 1) * (frame_rate au div 1000 * 400))))
             [0..<(length (samples au) - 1) div (frame_rate au div 1000 * 400)])"
proof -
  let ?p = "(RequestIterator_init au stg)\<lparr>is_initial_request := False\<rparr>"
  have "0 < frame_samples_size ?p"
    using assms by (simp add: init_simps div_greater_zero_iff)
  from exhaust_streaming [OF _ this refl] show ?thesis
    by (simp add: exhaust_initial init_simps)
qed

text \<open>
  So a buffer that is not empty yields \<open>ceil (L / F)\<close> requests in all, the
  configuration request among them.
\<close>

lemma exhaust_init_length:
  assumes "1000 \<le> frame_rate au" and "samples au \<noteq> []"
  shows "map_option length (exhaust (RequestIterator_init au stg)) =
           Some ((length (samples au) + frame_rate au div 1000 * 400 - 1)
                 div (frame_rate au div 1000 * 400))"
proof -
  let ?F = "frame_rate au div 1000 * 400"
  let ?L = "length (samples au)"
  from assms(1) have F: "0 < ?F" by (simp add: div_greater_zero_iff)
  from assms(2) have "?L + ?F - 1 = (?L - 1) + ?F" by (cases "samples au") simp_all
  then have "(?L + ?F - 1) div ?F = Suc ((?L - 1) div ?F)"
    using F by (simp only: div_add_self2)
  then show ?thesis by (simp add: exhaust_init [OF assms(1)])
qed

lemma exhaust_None_iff:
  "exhaust (RequestIterator_init au stg) = None \<longleftrightarrow> frame_rate au < 1000 \<and> samples au \<noteq> []"
proof (cases "frame_rate au < 1000")
  case True
  let ?p = "(RequestIterator_init au stg)\<lparr>is_initial_request := False\<rparr>"
  have F: "frame_samples_size ?p = 0" using True by (simp add: init_simps)
  show ?thesis
  proof (cases "samples au = []")
    case True
    have "exhaust ?p = Some []" by (rule exhaust_ended) (simp_all add: init_simps True)
    then show ?thesis using True by (simp add: exhaust_initial init_simps)
  next
    case False
    have "exhaust ?p = None" using F False by (intro exhaust_stuck) (simp_all add: init_simps)
    then show ?thesis
      using False \<open>frame_rate au < 1000\<close> by (simp add: exhaust_initial init_simps)
  qed
next
  case False
  then show ?thesis by (simp add: exhaust_init)
qed

subsection \<open>A fixed number of pulls\<close>

lemma pull_n_Suc:
  "pull_n (Suc n) p =
     (fst (RequestIterator_next p) # fst (pull_n n (snd (RequestIterator_next p))),
      snd (pull_n n (snd (RequestIterator_next p))))"
  by (simp add: case_prod_beta)

declare pull_n.simps(2) [simp del]

lemma pull_n_streaming_state:
  "\<not> is_initial_request p \<Longrightarrow>
   snd (pull_n n p) = p\<lparr>data_index := data_index p + n * frame_samples_size p\<rparr>"
proof (induction n arbitrary: p)
  case 0
  then show ?case by simp
next
  case (Suc n)
  then show ?case
    by (simp add: pull_n_Suc next_streaming algebra_simps)
qed

lemma pull_n_streaming_no_configuration:
  "\<not> is_initial_request p \<Longrightarrow> filter is_configuration (fst (pull_n n p)) = []"
proof (induction n arbitrary: p)
  case 0
  then show ?case by simp
next
  case (Suc n)
  then show ?case
    by (simp add: pull_n_Suc next_streaming)
qed

lemma payloads_ended:
  "\<not> is_initial_request p \<Longrightarrow>
   length (audio_content p) \<le> data_index p + frame_samples_size p \<Longrightarrow>
   audio_payloads (fst (pull_n n p)) = []"
proof (induction n arbitrary: p)
  case 0
  then show ?case by simp
next
  case (Suc n)
  then show ?case
    by (simp add: pull_n_Suc next_streaming)
qed

lemma payloads_nth:
  "\<not> is_initial_request p \<Longrightarrow> j < length (audio_payloads (fst (pull_n n p))) \<Longrightarrow>
   audio_payloads (fst (pull_n n p)) ! j =
     slice (audio_content p) (data_index p + j * frame_samples_size p)
       (data_index p + (j + 1) * frame_samples_size p)"
proof (induction n arbitrary: p j)
  case 0
  then show ?case by simp
next
  case (Suc n)
  let ?p' = "p\<lparr>data_index := data_index p + frame_samples_size p\<rparr>"
  show ?case
  proof (cases "length (audio_content p) \<le> data_index p + frame_samples_size p")
    case True
    have "audio_payloads (fst (pull_n (Suc n) p)) = []"
      by (rule payloads_ended) (use Suc.prems True in simp_all)
    with Suc.prems show ?thesis by simp
  next
    case False
    have eq: "audio_payloads (fst (pull_n (Suc n) p)) =
          slice (audio_content p) (data_index p) (data_index p + frame_samples_size p)
          # audio_payloads (fst (pull_n n ?p'))"
      using Suc.prems(1) False by (simp add: pull_n_Suc next_streaming)
    show ?thesis
    proof (cases j)
      case 0
      then show ?thesis by (simp add: eq)
    next
      case (Suc j')
      with Suc.prems(2) have "j' < length (audio_payloads (fst (pull_n n ?p')))"
        by (simp add: eq)
      from Suc.IH [OF _ this] Suc.prems(1) show ?thesis
        by (simp add: eq Suc algebra_simps)
    qed
  qed
qed

lemma payloads_prefix:
  "\<not> is_initial_request p \<Longrightarrow>
   prefix (concat (audio_payloads (fst (pull_n n p)))) (drop (data_index p) (audio_content p))"
proof (induction n arbitrary: p)
  case 0
  then show ?case by simp
next
  case (Suc n)
  let ?F = "frame_samples_size p"
  let ?p' = "p\<lparr>data_index := data_index p + ?F\<rparr>"
  have ih: "prefix (concat (audio_payloads (fst (pull_n n ?p'))))
              (drop ?F (drop (data_index p) (audio_content p)))"
    using Suc.IH [of ?p'] Suc.prems by (simp add: add.commute)
  show ?case
  proof (cases "length (audio_content p) \<le> data_index p + ?F")
    case True
    have "audio_payloads (fst (pull_n (Suc n) p)) = []"
      by (rule payloads_ended) (use Suc.prems True in simp_all)
    then show ?thesis by simp
  next
    case False
    have eq: "concat (audio_payloads (fst (pull_n (Suc n) p))) =
          take ?F (drop (data_index p) (audio_content p))
          @ concat (audio_payloads (fst (pull_n n ?p')))"
      using Suc.prems(1) False
      by (simp add: pull_n_Suc next_streaming slice_def)
    have "prefix (take ?F (drop (data_index p) (audio_content p))
                  @ concat (audio_payloads (fst (pull_n n ?p'))))
            (take ?F (drop (data_index p) (audio_content p))
                  @ drop ?F (drop (data_index p) (audio_content p)))"
      using ih by (simp only: same_prefix_prefix)
    then show ?thesis by (simp only: eq append_take_drop_id)
  qed
qed

lemma data_index_pull_n: "data_index p \<le> data_index (snd (pull_n n p))"
proof (induction n arbitrary: p)
  case 0
  then show ?case by simp
next
  case (Suc n)
  have "data_index p \<le> data_index (snd (RequestIterator_next p))" by (rule data_index_next)
  also have "\<dots> \<le> data_index (snd (pull_n n (snd (RequestIterator_next p))))" by (rule Suc.IH)
  finally show ?case by (simp add: pull_n_Suc)
qed

lemma pull_n_add: "snd (pull_n (i + k) p) = snd (pull_n k (snd (pull_n i p)))"
proof (induction i arbitrary: p)
  case 0
  then show ?case by simp
next
  case (Suc i)
  then show ?case by (simp add: pull_n_Suc)
qed

lemma pull_n_initial:
  "fst (pull_n (Suc n) (RequestIterator_init au stg)) =
     Inr (build_configuration_request (frame_rate au) stg)
     # fst (pull_n n ((RequestIterator_init au stg)\<lparr>is_initial_request := False\<rparr>))"
  by (simp add: pull_n_Suc next_initial init_simps)


lemma pull_n_zero_frame:
  "\<not> is_initial_request p \<Longrightarrow> frame_samples_size p = 0 \<Longrightarrow>
   pull_n n p =
     (replicate n (if length (audio_content p) \<le> data_index p then Inl StopIteration
                   else Inr (Request_audio_content [])), p)"
proof (induction n)
  case 0
  then show ?case by simp
next
  case (Suc n)
  then show ?case by (simp add: pull_n_Suc next_streaming slice_def)
qed

subsection \<open>The claims about the iterator\<close>

text \<open>
  C1. The claim: for a buffer of length \<open>L\<close> and frame size \<open>F > 0\<close>, iterating to
  exhaustion yields \<open>1 + ceil (L / F)\<close> requests whose audio payloads concatenate
  to the buffer. The code does otherwise: a buffer of two bytes at 1000 Hz
  (\<open>F = 400\<close>) yields the configuration request alone, and of a buffer of 801
  bytes the last byte is never sent.
\<close>

theorem C1_last_frame_dropped:
  "exhaust (RequestIterator_init \<lparr>samples = [1, 2], frame_rate = 1000\<rparr> stg)
     = Some [build_configuration_request 1000 stg]
   \<and> exhaust (RequestIterator_init \<lparr>samples = replicate 801 7, frame_rate = 1000\<rparr> stg)
     = Some [build_configuration_request 1000 stg,
             Request_audio_content (replicate 400 7),
             Request_audio_content (replicate 400 7)]"
  by (simp add: exhaust_init slice_def upt_conv_Cons)

text \<open>
  C2, as stated: an input with frame size 0 makes the iterator fail with a
  configuration error, and the iteration ends for every input. It does not:
  at 999 Hz the frame size is 0, the pulls return the configuration request and
  then empty audio requests, and the iteration has no end.
\<close>

theorem C2_counterexample:
  "frame_samples_size (RequestIterator_init \<lparr>samples = [1, 2], frame_rate = 999\<rparr> example_settings) = 0
   \<and> fst (pull_n 3 (RequestIterator_init \<lparr>samples = [1, 2], frame_rate = 999\<rparr> example_settings))
       = [Inr (build_configuration_request 999 example_settings),
          Inr (Request_audio_content []), Inr (Request_audio_content [])]
   \<and> fst (pull_n 3 (RequestIterator_init \<lparr>samples = [1, 2], frame_rate = 999\<rparr> example_settings))
       = [Inr (Request_streaming_config
                 (StreamingRecognitionConfig
                    (RecognitionConfig ''LINEAR16'' 999 ''pl-PL'' False 1
                       [(''no-input-timeout'', ''5000'')])
                    False True)),
          Inr (Request_audio_content []), Inr (Request_audio_content [])]
   \<and> exhaust (RequestIterator_init \<lparr>samples = [1, 2], frame_rate = 999\<rparr> example_settings) = None"
  by (simp add: init_simps exhaust_None_iff numeral_3_eq_3 pull_n_Suc next_initial next_streaming
        slice_def build_configuration_request_def example_settings_def)

text \<open>
  C2, amended: the frame size is 0 exactly when the frame rate is below 1000 Hz.
  For such an input the iterator raises no configuration error: it is
  constructed, the first pull returns the configuration request, and with an
  empty buffer the second pull raises \<^verbatim>\<open>StopIteration\<close>. The iteration ends
  for every input with a positive frame size or an empty buffer.
\<close>

theorem C2_zero_frame_size:
  "(frame_samples_size (RequestIterator_init au stg) = 0 \<longleftrightarrow> frame_rate au < 1000)
   \<and> take 1 (fst (pull_n (Suc n) (RequestIterator_init au stg))) =
       [Inr (build_configuration_request (frame_rate au) stg)]
   \<and> (frame_rate au < 1000 \<and> samples au = [] \<longrightarrow>
        fst (pull_n 2 (RequestIterator_init au stg)) =
          [Inr (build_configuration_request (frame_rate au) stg), Inl StopIteration])
   \<and> (0 < frame_samples_size (RequestIterator_init au stg) \<or> samples au = [] \<longrightarrow>
        (\<exists>reqs. exhaust (RequestIterator_init au stg) = Some reqs))
   \<and> build_configuration_request (frame_rate au) stg =
           Request_streaming_config
            (StreamingRecognitionConfig
               (RecognitionConfig ''LINEAR16'' (frame_rate au) ''pl-PL'' (time_offsets stg) 1
                  (timeouts_map stg))
               (single_utterance stg) (interim_results stg))
   \<and> is_configuration (Inr (build_configuration_request (frame_rate au) stg))"
proof -
  let ?p = "(RequestIterator_init au stg)\<lparr>is_initial_request := False\<rparr>"
  have first: "take 1 (fst (pull_n (Suc n) (RequestIterator_init au stg))) =
       [Inr (build_configuration_request (frame_rate au) stg)]"
    by (simp add: pull_n_initial)
  have second: "fst (pull_n 2 (RequestIterator_init au stg)) =
          [Inr (build_configuration_request (frame_rate au) stg), Inl StopIteration]"
    if "frame_rate au < 1000" "samples au = []"
  proof -
    from that have "fst (pull_n 1 ?p) = [Inl StopIteration]"
      by (subst pull_n_zero_frame) (simp_all add: init_simps)
    then show ?thesis
      by (simp add: numeral_2_eq_2 pull_n_initial)
  qed
  have ends: "\<exists>reqs. exhaust (RequestIterator_init au stg) = Some reqs"
    if "0 < frame_samples_size (RequestIterator_init au stg) \<or> samples au = []"
  proof -
    from that have "\<not> (frame_rate au < 1000 \<and> samples au \<noteq> [])"
      using frame_size_zero_iff [of au stg] by auto
    then have "exhaust (RequestIterator_init au stg) \<noteq> None"
      by (simp only: exhaust_None_iff not_False_eq_True)
    then show ?thesis by auto
  qed
  have cfg: "build_configuration_request (frame_rate au) stg =
           Request_streaming_config
            (StreamingRecognitionConfig
               (RecognitionConfig ''LINEAR16'' (frame_rate au) ''pl-PL'' (time_offsets stg) 1
                  (timeouts_map stg))
               (single_utterance stg) (interim_results stg))"
    by (simp add: build_configuration_request_def)
  have is_cfg: "is_configuration (Inr (build_configuration_request (frame_rate au) stg))"
    by (simp add: build_configuration_request_def)
  from first second ends cfg is_cfg show ?thesis
    by (simp only: frame_size_zero_iff) blast
qed

theorem C2_zero_frame_size_witness:
  "frame_rate \<lparr>samples = [], frame_rate = 500\<rparr> < 1000
   \<and> samples \<lparr>samples = [], frame_rate = 500\<rparr> = []
   \<and> fst (pull_n 2 (RequestIterator_init \<lparr>samples = [], frame_rate = 500\<rparr> example_settings))
       = [Inr (build_configuration_request 500 example_settings), Inl StopIteration]
   \<and> fst (pull_n 2 (RequestIterator_init \<lparr>samples = [], frame_rate = 500\<rparr> example_settings))
       = [Inr (Request_streaming_config
                 (StreamingRecognitionConfig
                    (RecognitionConfig ''LINEAR16'' 500 ''pl-PL'' False 1
                       [(''no-input-timeout'', ''5000'')])
                    False True)),
          Inl StopIteration]
   \<and> exhaust (RequestIterator_init \<lparr>samples = [], frame_rate = 500\<rparr> example_settings) \<noteq> None"
  using C2_zero_frame_size [of "\<lparr>samples = [], frame_rate = 500\<rparr>" example_settings 0]
  by (simp add: example_settings_def)

text \<open>
  C3. For an empty buffer and a positive frame size, the iteration yields one
  request and nothing else, and the second pull already raises
  \<^verbatim>\<open>StopIteration\<close>. That one request is the configuration request: a
  \<^verbatim>\<open>streaming_config\<close> message with the encoding LINEAR16, the frame rate
  of the audio, the language pl-PL, one alternative at most, and the flags and
  timeouts of the settings; it carries no audio.
\<close>

theorem C3_empty_buffer:
  assumes "samples au = []" and "0 < frame_samples_size (RequestIterator_init au stg)"
  shows "exhaust (RequestIterator_init au stg) = Some [build_configuration_request (frame_rate au) stg]
       \<and> fst (pull_n 2 (RequestIterator_init au stg)) =
           [Inr (build_configuration_request (frame_rate au) stg), Inl StopIteration]
       \<and> build_configuration_request (frame_rate au) stg =
           Request_streaming_config
            (StreamingRecognitionConfig
               (RecognitionConfig ''LINEAR16'' (frame_rate au) ''pl-PL'' (time_offsets stg) 1
                  (timeouts_map stg))
               (single_utterance stg) (interim_results stg))
       \<and> is_configuration (Inr (build_configuration_request (frame_rate au) stg))
       \<and> audio_payloads (fst (pull_n 2 (RequestIterator_init au stg))) = []"
proof -
  let ?p = "(RequestIterator_init au stg)\<lparr>is_initial_request := False\<rparr>"
  have "exhaust ?p = Some []"
    by (rule exhaust_ended) (simp_all add: init_simps assms(1))
  then have a: "exhaust (RequestIterator_init au stg) = Some [build_configuration_request (frame_rate au) stg]"
    by (simp add: exhaust_initial init_simps)
  have b: "fst (pull_n 2 (RequestIterator_init au stg)) =
           [Inr (build_configuration_request (frame_rate au) stg), Inl StopIteration]"
    by (simp add: numeral_2_eq_2 pull_n_Suc next_initial next_streaming init_simps assms(1))
  have c: "build_configuration_request (frame_rate au) stg =
           Request_streaming_config
            (StreamingRecognitionConfig
               (RecognitionConfig ''LINEAR16'' (frame_rate au) ''pl-PL'' (time_offsets stg) 1
                  (timeouts_map stg))
               (single_utterance stg) (interim_results stg))"
    by (simp add: build_configuration_request_def)
  have d: "is_configuration (Inr (build_configuration_request (frame_rate au) stg))"
    by (simp add: build_configuration_request_def)
  have e: "audio_payloads (fst (pull_n 2 (RequestIterator_init au stg))) = []"
    by (simp add: b build_configuration_request_def)
  from a b c d e show ?thesis by blast
qed

theorem C3_empty_buffer_witness:
  "samples \<lparr>samples = [], frame_rate = 16000\<rparr> = []
   \<and> 0 < frame_samples_size (RequestIterator_init \<lparr>samples = [], frame_rate = 16000\<rparr> example_settings)
   \<and> exhaust (RequestIterator_init \<lparr>samples = [], frame_rate = 16000\<rparr> example_settings)
       = Some [Request_streaming_config
                 (StreamingRecognitionConfig
                    (RecognitionConfig ''LINEAR16'' 16000 ''pl-PL'' False 1
                       [(''no-input-timeout'', ''5000'')])
                    False True)]
   \<and> fst (pull_n 2 (RequestIterator_init \<lparr>samples = [], frame_rate = 16000\<rparr> example_settings))
       = [Inr (Request_streaming_config
                 (StreamingRecognitionConfig
                    (RecognitionConfig ''LINEAR16'' 16000 ''pl-PL'' False 1
                       [(''no-input-timeout'', ''5000'')])
                    False True)),
          Inl StopIteration]"
  using C3_empty_buffer [of "\<lparr>samples = [], frame_rate = 16000\<rparr>" example_settings]
  by (simp add: init_simps example_settings_def)

text \<open>
  C4. A fresh iterator is pulled any number of times. The first result is the
  configuration request and no later result is one; the cursor
  \<^verbatim>\<open>data_index\<close> never decreases from one pull to a later one; and the
  audio payloads returned, in order, are the slices
  \<open>[k * F, (k + 1) * F)\<close> of the buffer for \<open>k = 0, 1, \<dots>\<close>, so that their
  concatenation is a prefix of the buffer and no byte position is delivered
  twice.
\<close>

theorem C4_session_invariants:
  fixes au stg n
  defines "p0 \<equiv> RequestIterator_init au stg"
  defines "cfg \<equiv> Inr (build_configuration_request (frame_rate au) stg)"
  defines "payloads \<equiv> audio_payloads (fst (pull_n n p0))"
  shows "take 1 (fst (pull_n (Suc n) p0)) = [cfg]
       \<and> filter is_configuration (fst (pull_n (Suc n) p0)) = [cfg]
       \<and> (i \<le> j \<longrightarrow> data_index (snd (pull_n i p0)) \<le> data_index (snd (pull_n j p0)))
       \<and> prefix (concat payloads) (samples au)
       \<and> (\<forall>k < length payloads.
            payloads ! k = slice (samples au) (k * frame_samples_size p0) ((k + 1) * frame_samples_size p0))"
proof -
  let ?p1 = "p0\<lparr>is_initial_request := False\<rparr>"
  have p1: "\<not> is_initial_request ?p1" by simp
  have first: "fst (pull_n (Suc n) p0) = cfg # fst (pull_n n ?p1)"
    unfolding p0_def cfg_def by (rule pull_n_initial)
  have one: "take 1 (fst (pull_n (Suc n) p0)) = [cfg]" by (simp add: first)
  have only: "filter is_configuration (fst (pull_n (Suc n) p0)) = [cfg]"
    by (simp add: first pull_n_streaming_no_configuration [OF p1])
       (simp add: cfg_def build_configuration_request_def)
  have mono: "data_index (snd (pull_n i p0)) \<le> data_index (snd (pull_n j p0))" if "i \<le> j"
  proof -
    from that obtain k where "j = i + k" by (auto simp: le_iff_add)
    then show ?thesis by (simp add: pull_n_add data_index_pull_n)
  qed
  have pay: "payloads = (case n of 0 \<Rightarrow> [] | Suc m \<Rightarrow> audio_payloads (fst (pull_n m ?p1)))"
    unfolding payloads_def
    by (cases n) (simp_all add: pull_n_initial cfg_def p0_def build_configuration_request_def)
  have pre: "prefix (concat payloads) (samples au)"
  proof (cases n)
    case 0
    then show ?thesis by (simp add: pay)
  next
    case (Suc m)
    from payloads_prefix [OF p1, of m] show ?thesis
      by (simp add: pay Suc p0_def init_simps)
  qed
  have nth: "payloads ! k = slice (samples au) (k * frame_samples_size p0) ((k + 1) * frame_samples_size p0)"
    if "k < length payloads" for k
  proof (cases n)
    case 0
    with that show ?thesis by (simp add: pay)
  next
    case (Suc m)
    with that have "k < length (audio_payloads (fst (pull_n m ?p1)))" by (simp add: pay)
    from payloads_nth [OF p1 this] show ?thesis
      by (simp add: pay Suc p0_def init_simps)
  qed
  from one only mono pre nth show ?thesis by blast
qed

theorem C4_session_invariants_witness:
  "(1::nat) \<le> 3
   \<and> data_index (snd (pull_n 1 (RequestIterator_init \<lparr>samples = replicate 801 7, frame_rate = 1000\<rparr> example_settings)))
     \<le> data_index (snd (pull_n 3 (RequestIterator_init \<lparr>samples = replicate 801 7, frame_rate = 1000\<rparr> example_settings)))
   \<and> prefix (concat (audio_payloads (fst (pull_n 3 (RequestIterator_init \<lparr>samples = replicate 801 7, frame_rate = 1000\<rparr> example_settings)))))
        (replicate 801 7)
   \<and> 1 < length (audio_payloads (fst (pull_n 3 (RequestIterator_init \<lparr>samples = replicate 801 7, frame_rate = 1000\<rparr> example_settings))))
   \<and> audio_payloads (fst (pull_n 3 (RequestIterator_init \<lparr>samples = replicate 801 7, frame_rate = 1000\<rparr> example_settings))) ! 1
       = slice (replicate 801 7) 400 800"
  using C4_session_invariants [where i = 1 and j = 3 and n = 3 and stg = example_settings
               and au = "\<lparr>samples = replicate 801 7, frame_rate = 1000\<rparr>"]
  by (simp add: numeral_3_eq_3 pull_n_Suc next_initial next_streaming init_simps slice_def
        build_configuration_request_def)

section \<open>The response aggregator\<close>

subsection \<open>One pass of the loop\<close>

lemmas example_defs = final_result_def interim_result_def ok_response_def error_response_def
  example_settings_def

lemma outcome_simps [simp]:
  "outcome (Inl e) = Inl e"
  "outcome (Inr vars) = Inr (accumulated vars)"
  by (simp_all add: outcome_def)

lemma append_words_filter:
  "append_words ws vars =
     vars\<lparr> confirmed_results :=
             confirmed_results vars @ map word (filter (\<lambda>w. word w \<noteq> ''<eps>'') ws),
           locals.alignment :=
             locals.alignment vars
             @ map (\<lambda>w. [start_time w, end_time w]) (filter (\<lambda>w. word w \<noteq> ''<eps>'') ws) \<rparr>"
  by (induction ws arbitrary: vars) simp_all

lemma process_error:
  "code (error r) \<noteq> 0 \<Longrightarrow>
   process_recognition t vars r =
     Inr (vars\<lparr> printed := printed vars @
            [Received_error_response (code (error r)) (message (error r))] \<rparr>)"
  by (simp add: process_recognition_def)

lemma process_no_results:
  "code (error r) = 0 \<Longrightarrow> results r = [] \<Longrightarrow> process_recognition t vars r = Inr vars"
  by (simp add: process_recognition_def)

lemma process_interim:
  "code (error r) = 0 \<Longrightarrow> results r = x # xs \<Longrightarrow> \<not> is_final x \<Longrightarrow>
   process_recognition t vars r = Inr (vars\<lparr> printed := printed vars @ [Temporal_results x] \<rparr>)"
  by (simp add: process_recognition_def)

lemma process_final_no_alternative:
  "code (error r) = 0 \<Longrightarrow> results r = x # xs \<Longrightarrow> is_final x \<Longrightarrow> alternatives x = [] \<Longrightarrow>
   process_recognition t vars r = Inl IndexError"
  by (simp add: process_recognition_def)

lemma process_final_transcript:
  "code (error r) = 0 \<Longrightarrow> results r = x # xs \<Longrightarrow> is_final x \<Longrightarrow> alternatives x = a # as \<Longrightarrow>
   process_recognition False vars r =
     Inr (vars\<lparr> confirmed_results := confirmed_results vars @ [alternative.transcript a],
                locals.confidence := min (locals.confidence vars) (alternative.confidence a) \<rparr>)"
  by (simp add: process_recognition_def)

lemma process_final_words:
  "code (error r) = 0 \<Longrightarrow> results r = x # xs \<Longrightarrow> is_final x \<Longrightarrow> alternatives x = a # as \<Longrightarrow>
   process_recognition True vars r =
     Inr (vars\<lparr> confirmed_results :=
                  confirmed_results vars @ map word (filter (\<lambda>w. word w \<noteq> ''<eps>'') (words a)),
                locals.alignment :=
                  locals.alignment vars
                  @ map (\<lambda>w. [start_time w, end_time w]) (filter (\<lambda>w. word w \<noteq> ''<eps>'') (words a)),
                locals.confidence := min (locals.confidence vars) (alternative.confidence a) \<rparr>)"
  by (simp add: process_recognition_def append_words_filter)

lemma process_cases:
  obtains (err) "code (error r) \<noteq> 0"
  | (empty) "code (error r) = 0" "results r = []"
  | (interim) x xs where "code (error r) = 0" "results r = x # xs" "\<not> is_final x"
  | (raise) x xs where "code (error r) = 0" "results r = x # xs" "is_final x" "alternatives x = []"
  | (final) x xs a as where "code (error r) = 0" "results r = x # xs" "is_final x" "alternatives x = a # as"
proof (cases "code (error r) = 0")
  case False
  then show ?thesis by (rule err)
next
  case c: True
  show ?thesis
  proof (cases "results r")
    case Nil
    with c show ?thesis by (rule empty)
  next
    case (Cons x xs)
    show ?thesis
    proof (cases "is_final x")
      case False
      with c Cons show ?thesis by (rule interim)
    next
      case f: True
      show ?thesis
      proof (cases "alternatives x")
        case Nil
        with c Cons f show ?thesis by (rule raise)
      next
        case (Cons a as)
        with c \<open>results r = x # xs\<close> f show ?thesis by (rule final)
      qed
    qed
  qed
qed

lemma process_accumulated:
  assumes "accumulated v = accumulated v'"
  shows "outcome (process_recognition t v r)
       = outcome (process_recognition t v' r)"
proof -
  from assms have eqs: "confirmed_results v = confirmed_results v'"
      "locals.alignment v = locals.alignment v'" "locals.confidence v = locals.confidence v'"
    by (simp_all add: accumulated_def)
  show ?thesis
  proof (cases r rule: process_cases)
    case err
    then show ?thesis by (simp add: process_error accumulated_def eqs)
  next
    case empty
    then show ?thesis by (simp add: process_no_results assms)
  next
    case (interim x xs)
    then show ?thesis by (simp add: process_interim accumulated_def eqs)
  next
    case (raise x xs)
    then show ?thesis by (simp add: process_final_no_alternative)
  next
    case (final x xs a as)
    then show ?thesis
      by (cases t) (simp_all add: process_final_words process_final_transcript accumulated_def eqs)
  qed
qed

lemma process_first_only:
  "outcome (process_recognition t vars r) = outcome (process_recognition t vars (first_only r))"
proof (cases r rule: process_cases)
  case err
  then show ?thesis by (simp add: process_error first_only_def accumulated_def)
next
  case empty
  then show ?thesis by (simp add: process_no_results first_only_def)
next
  case (interim x xs)
  then show ?thesis
    by (simp add: process_interim [OF interim]
          process_interim [where xs = "[]" and x = "x\<lparr>alternatives := take 1 (alternatives x)\<rparr>"]
          first_only_def accumulated_def)
next
  case (raise x xs)
  then show ?thesis
    by (simp add: process_final_no_alternative [OF raise]
          process_final_no_alternative [where xs = "[]" and x = "x\<lparr>alternatives := []\<rparr>"]
          first_only_def)
next
  case (final x xs a as)
  then show ?thesis
    by (cases t)
       (simp_all add: process_final_words [OF final] process_final_transcript [OF final]
          process_final_words [where xs = "[]" and as = "[]" and a = a and x = "x\<lparr>alternatives := [a]\<rparr>"]
          process_final_transcript [where xs = "[]" and as = "[]" and a = a and x = "x\<lparr>alternatives := [a]\<rparr>"]
          first_only_def)
qed

subsection \<open>The loop and the whole method\<close>

lemma loop_accumulated:
  "accumulated v = accumulated v' \<Longrightarrow>
   outcome (recognitions_loop t v rs) = outcome (recognitions_loop t v' rs)"
proof (induction rs arbitrary: v v')
  case Nil
  then show ?case by simp
next
  case (Cons r rs)
  note step = process_accumulated [OF Cons.prems, of t r]
  show ?case
  proof (cases "process_recognition t v r")
    case (Inl e)
    with step have "process_recognition t v' r = Inl e"
      by (cases "process_recognition t v' r") simp_all
    with Inl show ?thesis by simp
  next
    case (Inr w)
    with step obtain w' where w': "process_recognition t v' r = Inr w'"
      and "accumulated w = accumulated w'"
      by (cases "process_recognition t v' r") simp_all
    from Cons.IH [OF this(2)] Inr w' show ?thesis by simp
  qed
qed

lemma loop_append:
  "recognitions_loop t v (xs @ ys) =
     (case recognitions_loop t v xs of Inl e \<Rightarrow> Inl e | Inr v' \<Rightarrow> recognitions_loop t v' ys)"
  by (induction xs arbitrary: v) (simp_all split: sum.splits)

lemma final_accumulated:
  "accumulated v = accumulated v' \<Longrightarrow> build_final_results t v = build_final_results t v'"
  by (simp add: accumulated_def build_final_results_def)

lemma recognize_by_accumulated:
  assumes "outcome (recognitions_loop (time_offsets stg) initial_locals rs)
         = outcome (recognitions_loop (time_offsets stg) initial_locals rs')"
  shows "recognize_audio_content stg rs = recognize_audio_content stg rs'"
proof (cases "recognitions_loop (time_offsets stg) initial_locals rs")
  case (Inl e)
  with assms have "recognitions_loop (time_offsets stg) initial_locals rs' = Inl e"
    by (cases "recognitions_loop (time_offsets stg) initial_locals rs'") simp_all
  with Inl show ?thesis by (simp add: recognize_audio_content_def)
next
  case (Inr w)
  with assms obtain w' where w': "recognitions_loop (time_offsets stg) initial_locals rs' = Inr w'"
    and "accumulated w = accumulated w'"
    by (cases "recognitions_loop (time_offsets stg) initial_locals rs'") simp_all
  from final_accumulated [OF this(2)] Inr w' show ?thesis
    by (simp add: recognize_audio_content_def)
qed

lemma recognize_replace:
  assumes "\<And>v. outcome (process_recognition (time_offsets stg) v r)
              = outcome (process_recognition (time_offsets stg) v r')"
  shows "recognize_audio_content stg (pre @ r # post) = recognize_audio_content stg (pre @ r' # post)"
proof (rule recognize_by_accumulated)
  let ?t = "time_offsets stg"
  show "outcome (recognitions_loop ?t initial_locals (pre @ r # post))
      = outcome (recognitions_loop ?t initial_locals (pre @ r' # post))"
  proof (cases "recognitions_loop ?t initial_locals pre")
    case (Inl e)
    then show ?thesis by (simp add: loop_append)
  next
    case (Inr v)
    have "outcome (recognitions_loop ?t v (r # post))
        = outcome (recognitions_loop ?t v (r' # post))"
    proof (cases "process_recognition ?t v r")
      case (Inl e)
      with assms [of v] have "process_recognition ?t v r' = Inl e"
        by (cases "process_recognition ?t v r'") simp_all
      with Inl show ?thesis by simp
    next
      case w: (Inr w)
      with assms [of v] obtain w' where w': "process_recognition ?t v r' = Inr w'"
        and "accumulated w = accumulated w'"
        by (cases "process_recognition ?t v r'") simp_all
      from loop_accumulated [OF this(2)] w w' show ?thesis by simp
    qed
    with Inr show ?thesis by (simp add: loop_append)
  qed
qed

lemma recognize_skip:
  assumes "code (error r) \<noteq> 0 \<or> results r = [] \<or> \<not> is_final (hd (results r))"
  shows "recognize_audio_content stg (pre @ r # post) = recognize_audio_content stg (pre @ post)"
proof (rule recognize_by_accumulated)
  let ?t = "time_offsets stg"
  have step: "\<exists>v'. process_recognition ?t v r = Inr v' \<and> accumulated v' = accumulated v" for v
    using assms
    by (cases r rule: process_cases)
       (simp_all add: process_error process_no_results process_interim accumulated_def)
  show "outcome (recognitions_loop ?t initial_locals (pre @ r # post))
      = outcome (recognitions_loop ?t initial_locals (pre @ post))"
  proof (cases "recognitions_loop ?t initial_locals pre")
    case (Inl e)
    then show ?thesis by (simp add: loop_append)
  next
    case (Inr v)
    from step [of v] obtain v' where "process_recognition ?t v r = Inr v'"
      and "accumulated v' = accumulated v" by blast
    then have "outcome (recognitions_loop ?t v (r # post))
        = outcome (recognitions_loop ?t v post)"
      using loop_accumulated [of v' v ?t post] by simp
    with Inr show ?thesis by (simp add: loop_append)
  qed
qed

lemma recognize_skip_all:
  assumes "\<forall>r \<in> set mids. code (error r) \<noteq> 0 \<or> results r = [] \<or> \<not> is_final (hd (results r))"
  shows "recognize_audio_content stg (pre @ mids @ post) = recognize_audio_content stg (pre @ post)"
  using assms
proof (induction mids)
  case Nil
  then show ?case by simp
next
  case (Cons m mids)
  have "recognize_audio_content stg (pre @ (m # mids) @ post)
      = recognize_audio_content stg (pre @ m # (mids @ post))" by simp
  also have "\<dots> = recognize_audio_content stg (pre @ (mids @ post))"
    by (rule recognize_skip) (use Cons.prems in simp)
  also have "\<dots> = recognize_audio_content stg (pre @ post)"
    using Cons by simp
  finally show ?case .
qed

lemma no_final_skipped:
  "\<forall>x \<in> set (results r). \<not> is_final x \<Longrightarrow>
   code (error r) \<noteq> 0 \<or> results r = [] \<or> \<not> is_final (hd (results r))"
  by (cases "results r") simp_all


lemma no_final_skipped_all:
  assumes "\<forall>r \<in> set rs. \<forall>x \<in> set (results r). \<not> is_final x"
  shows "\<forall>r \<in> set rs. code (error r) \<noteq> 0 \<or> results r = [] \<or> \<not> is_final (hd (results r))"
proof
  fix q assume "q \<in> set rs"
  with assms have "\<forall>x \<in> set (results q). \<not> is_final x" by blast
  then show "code (error q) \<noteq> 0 \<or> results q = [] \<or> \<not> is_final (hd (results q))"
    by (rule no_final_skipped)
qed

lemma loop_no_final:
  "\<forall>r \<in> set rs. code (error r) \<noteq> 0 \<or> results r = [] \<or> \<not> is_final (hd (results r)) \<Longrightarrow>
   outcome (recognitions_loop t v rs) = Inr (accumulated v)"
proof (induction rs arbitrary: v)
  case Nil
  then show ?case by simp
next
  case (Cons r rs)
  from Cons.prems have "code (error r) \<noteq> 0 \<or> results r = [] \<or> \<not> is_final (hd (results r))"
    by simp
  then obtain v' where v': "process_recognition t v r = Inr v'" and acc: "accumulated v' = accumulated v"
    by (cases r rule: process_cases)
       (simp_all add: process_error process_no_results process_interim accumulated_def)
  from Cons.prems have "outcome (recognitions_loop t v' rs) = Inr (accumulated v')"
    by (intro Cons.IH) simp
  with v' acc show ?case by simp
qed

lemma recognize_nil:
  "recognize_audio_content stg [] = Inr [\<lparr>transcript = [], alignment = [[]], confidence = 1\<rparr>]"
  by (simp add: recognize_audio_content_def initial_locals_def build_final_results_def)

subsection \<open>The claims about the aggregator\<close>

text \<open>
  C5. Time offsets are off. The responses contain two final results, with the
  first alternatives \<open>''hello''\<close> at confidence 0.9 and \<open>''world''\<close> at 0.8;
  every other response (before, between or after them) has no final result.
  The method returns the transcript \<open>''hello world''\<close>, the placeholder
  alignment \<open>[[]]\<close> and the confidence 0.8.
\<close>

theorem C5_two_final_results:
  assumes off: "\<not> time_offsets stg"
    and r: "code (error r) = 0" "results r = x # xs" "is_final x" "alternatives x = a # as"
    and a: "alternative.transcript a = ''hello''" "alternative.confidence a = 0.9"
    and r': "code (error r') = 0" "results r' = x' # xs'" "is_final x'" "alternatives x' = a' # as'"
    and a': "alternative.transcript a' = ''world''" "alternative.confidence a' = 0.8"
    and others: "\<forall>r \<in> set (pre @ mid @ post). \<forall>x \<in> set (results r). \<not> is_final x"
  shows "recognize_audio_content stg (pre @ [r] @ mid @ [r'] @ post) =
           Inr [\<lparr>transcript = ''hello world'', alignment = [[]], confidence = 0.8\<rparr>]"
proof -
  have skip: "\<forall>r \<in> set rs. code (error r) \<noteq> 0 \<or> results r = [] \<or> \<not> is_final (hd (results r))"
    if "set rs \<subseteq> set (pre @ mid @ post)" for rs
    by (rule no_final_skipped_all) (use that others in blast)
  have "recognize_audio_content stg (pre @ [r] @ mid @ [r'] @ post)
      = recognize_audio_content stg ([] @ pre @ ([r] @ mid @ [r'] @ post))" by simp
  also have "\<dots> = recognize_audio_content stg ([] @ ([r] @ mid @ [r'] @ post))"
    by (rule recognize_skip_all) (rule skip, auto)
  also have "\<dots> = recognize_audio_content stg ([r] @ mid @ ([r'] @ post))" by simp
  also have "\<dots> = recognize_audio_content stg ([r] @ ([r'] @ post))"
    by (rule recognize_skip_all) (rule skip, auto)
  also have "\<dots> = recognize_audio_content stg ([r, r'] @ post @ [])" by simp
  also have "\<dots> = recognize_audio_content stg ([r, r'] @ [])"
    by (rule recognize_skip_all) (rule skip, auto)
  also have "\<dots> = Inr [\<lparr>transcript = ''hello world'', alignment = [[]], confidence = 0.8\<rparr>]"
    using off
    by (simp add: recognize_audio_content_def initial_locals_def build_final_results_def
          process_final_transcript [OF r] process_final_transcript [OF r'] a a')
  finally show ?thesis .
qed

theorem C5_two_final_results_witness:
  "recognize_audio_content example_settings
     ([ok_response [interim_result ''hel'']]
      @ [ok_response [final_result ''hello'' 0.9 []]]
      @ [error_response 3 ''busy'' [], ok_response [interim_result ''wor'']]
      @ [ok_response [final_result ''world'' 0.8 []]]
      @ [ok_response []])
   = Inr [\<lparr>transcript = ''hello world'', alignment = [[]], confidence = 0.8\<rparr>]"
  using C5_two_final_results [where stg = example_settings
      and pre = "[ok_response [interim_result ''hel'']]"
      and r = "ok_response [final_result ''hello'' 0.9 []]"
      and x = "final_result ''hello'' 0.9 []" and xs = "[]"
      and a = "\<lparr>alternative.transcript = ''hello'', alternative.confidence = 0.9, words = []\<rparr>"
      and as = "[]"
      and mid = "[error_response 3 ''busy'' [], ok_response [interim_result ''wor'']]"
      and r' = "ok_response [final_result ''world'' 0.8 []]"
      and x' = "final_result ''world'' 0.8 []" and xs' = "[]"
      and a' = "\<lparr>alternative.transcript = ''world'', alternative.confidence = 0.8, words = []\<rparr>"
      and as' = "[]"
      and post = "[ok_response []]"]
  by (simp add: example_defs)


text \<open>
  C6. Time offsets are on, and one response has a final first result; the
  other responses have no final result. Every word of its first alternative
  whose text is \<open>''<eps>''\<close> is skipped, the other words are joined by single
  spaces into the transcript, and their start and end times, in order, are the
  alignment (the placeholder \<open>[[]]\<close> when no word is kept); the confidence is
  the minimum of 1.0 and the confidence of the alternative. For the words
  \<open>(hi, 0.0, 0.5)\<close>, \<open>(<eps>, 0.5, 0.5)\<close>, \<open>(there, 0.5, 1.0)\<close> and a
  confidence of at most 1, the result is \<open>''hi there''\<close> with the alignment
  \<open>[[0.0, 0.5], [0.5, 1.0]]\<close> and the confidence of the alternative.
\<close>

theorem C6_word_time_offsets:
  assumes on: "time_offsets stg"
    and r: "code (error r) = 0" "results r = x # xs" "is_final x" "alternatives x = a # as"
    and others: "\<forall>r \<in> set (pre @ post). \<forall>x \<in> set (results r). \<not> is_final x"
  shows "recognize_audio_content stg (pre @ [r] @ post) =
           Inr [\<lparr>transcript = join '' '' (map word (filter (\<lambda>w. word w \<noteq> ''<eps>'') (words a))),
                 alignment =
                   (if filter (\<lambda>w. word w \<noteq> ''<eps>'') (words a) = [] then [[]]
                    else map (\<lambda>w. [start_time w, end_time w])
                           (filter (\<lambda>w. word w \<noteq> ''<eps>'') (words a))),
                 confidence = min 1.0 (alternative.confidence a)\<rparr>]
       \<and> (words a = [\<lparr>word = ''hi'', start_time = 0.0, end_time = 0.5\<rparr>,
                     \<lparr>word = ''<eps>'', start_time = 0.5, end_time = 0.5\<rparr>,
                     \<lparr>word = ''there'', start_time = 0.5, end_time = 1.0\<rparr>]
            \<and> alternative.confidence a \<le> 1 \<longrightarrow>
          recognize_audio_content stg (pre @ [r] @ post) =
            Inr [\<lparr>transcript = ''hi there'', alignment = [[0.0, 0.5], [0.5, 1.0]],
                  confidence = alternative.confidence a\<rparr>])"
proof -
  let ?kept = "filter (\<lambda>w. word w \<noteq> ''<eps>'') (words a)"
  have skip: "\<forall>r \<in> set rs. code (error r) \<noteq> 0 \<or> results r = [] \<or> \<not> is_final (hd (results r))"
    if "set rs \<subseteq> set (pre @ post)" for rs
    by (rule no_final_skipped_all) (use that others in blast)
  have "recognize_audio_content stg (pre @ [r] @ post)
      = recognize_audio_content stg ([] @ pre @ ([r] @ post))" by simp
  also have "\<dots> = recognize_audio_content stg ([] @ ([r] @ post))"
    by (rule recognize_skip_all) (rule skip, auto)
  also have "\<dots> = recognize_audio_content stg ([r] @ post @ [])" by simp
  also have "\<dots> = recognize_audio_content stg ([r] @ [])"
    by (rule recognize_skip_all) (rule skip, auto)
  also have "\<dots> = Inr [\<lparr>transcript = join '' '' (map word ?kept),
                 alignment = (if ?kept = [] then [[]]
                    else map (\<lambda>w. [start_time w, end_time w]) ?kept),
                 confidence = min 1.0 (alternative.confidence a)\<rparr>]"
    using on
    by (simp add: recognize_audio_content_def initial_locals_def build_final_results_def
          process_final_words [OF r])
  finally have general: "recognize_audio_content stg (pre @ [r] @ post) =
      Inr [\<lparr>transcript = join '' '' (map word ?kept),
                 alignment = (if ?kept = [] then [[]]
                    else map (\<lambda>w. [start_time w, end_time w]) ?kept),
                 confidence = min 1.0 (alternative.confidence a)\<rparr>]" .
  then show ?thesis by (simp add: min_def)
qed

theorem C6_word_time_offsets_witness:
  "recognize_audio_content (example_settings\<lparr>time_offsets := True\<rparr>)
     ([ok_response [interim_result ''hi'']]
      @ [ok_response [final_result ''hi there'' 0.7
           [\<lparr>word = ''hi'', start_time = 0.0, end_time = 0.5\<rparr>,
            \<lparr>word = ''<eps>'', start_time = 0.5, end_time = 0.5\<rparr>,
            \<lparr>word = ''there'', start_time = 0.5, end_time = 1.0\<rparr>]]]
      @ [error_response 3 ''busy'' []])
   = Inr [\<lparr>transcript = ''hi there'', alignment = [[0.0, 0.5], [0.5, 1.0]], confidence = 0.7\<rparr>]"
  using C6_word_time_offsets [where stg = "example_settings\<lparr>time_offsets := True\<rparr>"
      and pre = "[ok_response [interim_result ''hi'']]"
      and r = "ok_response [final_result ''hi there'' 0.7
           [\<lparr>word = ''hi'', start_time = 0.0, end_time = 0.5\<rparr>,
            \<lparr>word = ''<eps>'', start_time = 0.5, end_time = 0.5\<rparr>,
            \<lparr>word = ''there'', start_time = 0.5, end_time = 1.0\<rparr>]]"
      and x = "final_result ''hi there'' 0.7
           [\<lparr>word = ''hi'', start_time = 0.0, end_time = 0.5\<rparr>,
            \<lparr>word = ''<eps>'', start_time = 0.5, end_time = 0.5\<rparr>,
            \<lparr>word = ''there'', start_time = 0.5, end_time = 1.0\<rparr>]"
      and xs = "[]"
      and a = "\<lparr>alternative.transcript = ''hi there'', alternative.confidence = 0.7,
                words = [\<lparr>word = ''hi'', start_time = 0.0, end_time = 0.5\<rparr>,
            \<lparr>word = ''<eps>'', start_time = 0.5, end_time = 0.5\<rparr>,
            \<lparr>word = ''there'', start_time = 0.5, end_time = 1.0\<rparr>]\<rparr>"
      and as = "[]"
      and post = "[error_response 3 ''busy'' []]"]
  by (simp add: example_defs)

text \<open>
  C7. When no result of any response is final, the method returns the empty
  transcript, the placeholder alignment \<open>[[]]\<close> and the confidence 1.0, and the
  loop leaves the three accumulated variables as they were, from any state.
\<close>

theorem C7_only_interim:
  assumes "\<forall>r \<in> set rs. \<forall>x \<in> set (results r). \<not> is_final x"
  shows "recognize_audio_content stg rs = Inr [\<lparr>transcript = '''', alignment = [[]], confidence = 1.0\<rparr>]
       \<and> outcome (recognitions_loop t vars rs) = Inr (accumulated vars)"
proof -
  from assms have skip:
    "\<forall>r \<in> set rs. code (error r) \<noteq> 0 \<or> results r = [] \<or> \<not> is_final (hd (results r))"
    by (rule no_final_skipped_all)
  have "recognize_audio_content stg ([] @ rs @ []) = recognize_audio_content stg ([] @ [])"
    using skip by (rule recognize_skip_all)
  then have "recognize_audio_content stg rs = Inr [\<lparr>transcript = '''', alignment = [[]], confidence = 1.0\<rparr>]"
    by (simp add: recognize_nil)
  moreover have "outcome (recognitions_loop t vars rs) = Inr (accumulated vars)"
    using skip by (rule loop_no_final)
  ultimately show ?thesis ..
qed

theorem C7_only_interim_witness:
  "recognize_audio_content example_settings
     [ok_response [interim_result ''he''], ok_response [interim_result ''hello'', interim_result ''w'']]
   = Inr [\<lparr>transcript = '''', alignment = [[]], confidence = 1.0\<rparr>]"
  using C7_only_interim [where stg = example_settings
      and rs = "[ok_response [interim_result ''he''], ok_response [interim_result ''hello'', interim_result ''w'']]"]
  by (simp add: example_defs)

text \<open>
  C8. A response with a non-zero error code is printed and nothing else: the
  pass raises nothing and changes none of \<^verbatim>\<open>confirmed_results\<close>,
  \<^verbatim>\<open>alignment\<close> and \<^verbatim>\<open>confidence\<close>, the loop goes on with the
  next response, and the method returns what it returns without that response.
\<close>

theorem C8_error_response:
  assumes "code (error r) \<noteq> 0"
  shows "process_recognition t vars r =
           Inr (vars\<lparr> printed := printed vars @
                  [Received_error_response (code (error r)) (message (error r))] \<rparr>)
       \<and> outcome (process_recognition t vars r) = Inr (accumulated vars)
       \<and> recognitions_loop t vars (r # rs) =
           recognitions_loop t
             (vars\<lparr> printed := printed vars @
                [Received_error_response (code (error r)) (message (error r))] \<rparr>) rs
       \<and> recognize_audio_content stg (pre @ r # post) = recognize_audio_content stg (pre @ post)"
proof -
  have step: "process_recognition t vars r =
           Inr (vars\<lparr> printed := printed vars @
                  [Received_error_response (code (error r)) (message (error r))] \<rparr>)"
    using assms by (rule process_error)
  have acc: "outcome (process_recognition t vars r) = Inr (accumulated vars)"
    by (simp add: step accumulated_def)
  have loop: "recognitions_loop t vars (r # rs) =
           recognitions_loop t
             (vars\<lparr> printed := printed vars @
                [Received_error_response (code (error r)) (message (error r))] \<rparr>) rs"
    by (simp add: step)
  have whole: "recognize_audio_content stg (pre @ r # post) = recognize_audio_content stg (pre @ post)"
    by (rule recognize_skip) (simp add: assms)
  from step acc loop whole show ?thesis by blast
qed

theorem C8_error_response_witness:
  "code (error (error_response 14 ''unavailable'' [final_result ''lost'' 0.1 []])) \<noteq> 0
   \<and> recognize_audio_content example_settings
       ([ok_response [final_result ''hello'' 0.9 []]]
        @ error_response 14 ''unavailable'' [final_result ''lost'' 0.1 []]
        # [ok_response [final_result ''world'' 0.8 []]])
     = Inr [\<lparr>transcript = ''hello world'', alignment = [[]], confidence = 0.8\<rparr>]"
  using C8_error_response [where stg = example_settings
      and r = "error_response 14 ''unavailable'' [final_result ''lost'' 0.1 []]"
      and pre = "[ok_response [final_result ''hello'' 0.9 []]]"
      and post = "[ok_response [final_result ''world'' 0.8 []]]"]
  by (simp add: example_defs recognize_audio_content_def initial_locals_def
        build_final_results_def process_recognition_def)

text \<open>
  C10. Only the first result of a response and the first alternative of that
  result can contribute: cutting the response down to them changes neither
  what a pass accumulates nor what the method returns. When the first result
  is not final the response contributes nothing, whatever the later results
  are, final ones included.
\<close>

theorem C10_first_result_only:
  "outcome (process_recognition t vars r) = outcome (process_recognition t vars (first_only r))
   \<and> recognize_audio_content stg (pre @ r # post) = recognize_audio_content stg (pre @ first_only r # post)
   \<and> (results r = x # xs \<and> \<not> is_final x \<longrightarrow>
        outcome (process_recognition t vars r) = Inr (accumulated vars)
        \<and> recognize_audio_content stg (pre @ r # post) = recognize_audio_content stg (pre @ post))"
proof -
  have a: "outcome (process_recognition t vars r) = outcome (process_recognition t vars (first_only r))"
    by (rule process_first_only)
  have b: "recognize_audio_content stg (pre @ r # post) = recognize_audio_content stg (pre @ first_only r # post)"
    by (rule recognize_replace) (rule process_first_only)
  have c: "outcome (process_recognition t vars r) = Inr (accumulated vars)"
    if "results r = x # xs" "\<not> is_final x"
    using loop_no_final [of "[r]" t vars] that
    by (simp split: sum.splits)
  have d: "recognize_audio_content stg (pre @ r # post) = recognize_audio_content stg (pre @ post)"
    if "results r = x # xs" "\<not> is_final x"
    by (rule recognize_skip) (simp add: that)
  from a b c d show ?thesis by blast
qed

theorem C10_first_result_only_witness:
  "results (ok_response [interim_result ''he'', final_result ''late'' 0.3 []])
     = interim_result ''he'' # [final_result ''late'' 0.3 []]
   \<and> \<not> is_final (interim_result ''he'')
   \<and> recognize_audio_content example_settings
       ([ok_response [final_result ''hello'' 0.9 []]]
        @ ok_response [interim_result ''he'', final_result ''late'' 0.3 []] # [])
     = Inr [\<lparr>transcript = ''hello'', alignment = [[]], confidence = 0.9\<rparr>]"
  using C10_first_result_only [where stg = example_settings
      and r = "ok_response [interim_result ''he'', final_result ''late'' 0.3 []]"
      and x = "interim_result ''he''" and xs = "[final_result ''late'' 0.3 []]"
      and pre = "[ok_response [final_result ''hello'' 0.9 []]]" and post = "[]"]
  by (simp add: example_defs recognize_audio_content_def initial_locals_def
        build_final_results_def process_recognition_def)

end
